theory Spec2Isabelle
  imports Complex_Main "HOL-Library.Word"
begin

section \<open>Scene history (App.tsx)\<close>

text \<open>
  \<^verbatim>\<open>type HistoryEntry = { file: File; url: string; debugImageUrl: string | null;
  debugPrompt: string | null }\<close>. The field \<^verbatim>\<open>file\<close> is \<open>entryFile\<close> here (\<open>file\<close> is
  reserved); the type of files is left open.
\<close>

record 'f HistoryEntry =
  entryFile :: 'f
  url :: string
  debugImageUrl :: "string option"
  debugPrompt :: "string option"

text \<open>
  \<^verbatim>\<open>Array.prototype.slice(start, end)\<close> of ECMAScript: a negative bound counts from
  the end of the array, and both bounds are cut to the array.
\<close>

definition js_slice :: "'a list \<Rightarrow> int \<Rightarrow> int \<Rightarrow> 'a list" where
  "js_slice xs start fin =
     (let len = int (length xs);
          k = (if start < 0 then max (len + start) 0 else min start len);
          final = (if fin < 0 then max (len + fin) 0 else min fin len)
      in take (nat (final - k)) (drop (nat k) xs))"

text \<open>\<^verbatim>\<open>slice(start)\<close>: the end defaults to the length.\<close>

definition js_slice_from :: "'a list \<Rightarrow> int \<Rightarrow> 'a list" where
  "js_slice_from xs start = js_slice xs start (int (length xs))"

text \<open>
  The two state cells \<^verbatim>\<open>sceneHistory\<close> and \<^verbatim>\<open>historyIndex\<close>
  (\<^verbatim>\<open>useState<HistoryEntry[]>([])\<close>, \<^verbatim>\<open>useState<number>(-1)\<close>).
\<close>

record 'f history =
  sceneHistory :: "'f HistoryEntry list"
  historyIndex :: int

definition initialHistory :: "'f history" where
  "initialHistory = \<lparr>sceneHistory = [], historyIndex = -1\<rparr>"

text \<open>
  The commit fragment that \<^verbatim>\<open>handleConfirmPlacement\<close>, \<^verbatim>\<open>handleApplyEdits\<close> and
  \<^verbatim>\<open>handleApplyInpainting\<close> share word for word:
  \<^verbatim>\<open>const newHistory = sceneHistory.slice(0, historyIndex + 1);
  const prunedHistory = sceneHistory.slice(historyIndex + 1);
  prunedHistory.forEach(entry => URL.revokeObjectURL(entry.url));
  newHistory.push(newEntry); setSceneHistory(newHistory);
  setHistoryIndex(newHistory.length - 1);\<close>
\<close>

definition prunedHistory :: "('f, 'z) history_scheme \<Rightarrow> 'f HistoryEntry list" where
  "prunedHistory h = js_slice_from (sceneHistory h) (historyIndex h + 1)"

definition commitEntry ::
  "'f HistoryEntry \<Rightarrow> ('f, 'z) history_scheme \<Rightarrow> ('f, 'z) history_scheme" where
  "commitEntry newEntry h =
     (let newHistory = js_slice (sceneHistory h) 0 (historyIndex h + 1) @ [newEntry]
      in h\<lparr>sceneHistory := newHistory, historyIndex := int (length newHistory) - 1\<rparr>)"

text \<open>\<^verbatim>\<open>handleUndo\<close> and \<^verbatim>\<open>handleRedo\<close>, on the history cells.\<close>

definition undoHistory :: "('f, 'z) history_scheme \<Rightarrow> ('f, 'z) history_scheme" where
  "undoHistory h =
     (if historyIndex h > 0 then h\<lparr>historyIndex := historyIndex h - 1\<rparr> else h)"

definition redoHistory :: "('f, 'z) history_scheme \<Rightarrow> ('f, 'z) history_scheme" where
  "redoHistory h =
     (if historyIndex h < int (length (sceneHistory h)) - 1
      then h\<lparr>historyIndex := historyIndex h + 1\<rparr> else h)"

text \<open>\<^verbatim>\<open>setInitialScene\<close>: a one-entry history with the cursor on it.\<close>

definition setInitialSceneHistory :: "'f HistoryEntry \<Rightarrow> 'f history" where
  "setInitialSceneHistory newEntry = \<lparr>sceneHistory = [newEntry], historyIndex = 0\<rparr>"

text \<open>The cursor invariant: \<open>-1\<close> on the empty stack, an index of the stack otherwise.\<close>

definition cursorOk :: "('f, 'z) history_scheme \<Rightarrow> bool" where
  "cursorOk h =
     (if sceneHistory h = [] then historyIndex h = -1
      else 0 \<le> historyIndex h \<and> historyIndex h < int (length (sceneHistory h)))"

text \<open>A sample entry whose file is the given label.\<close>

definition entryOf :: "string \<Rightarrow> string HistoryEntry" where
  "entryOf name =
     \<lparr>entryFile = name, url = ''blob:'' @ name, debugImageUrl = None, debugPrompt = None\<rparr>"

section \<open>JavaScript numbers\<close>

text \<open>
  A JavaScript number is a double: a finite value, an infinity or NaN. A finite value
  is the real it denotes, and every arithmetic operation gives the exact result rounded
  to the nearest double, a tie going to the double whose last bit is even. Zero has one
  sign here: every divisor in the code is a size or a distance (a canvas or rectangle
  dimension, or the result of \<^verbatim>\<open>Math.sqrt\<close>), which is never the negative zero.
\<close>

text \<open>Rounding to the nearest integer, a tie going to the even one.\<close>

definition roundHalfEven :: "real \<Rightarrow> int" where
  "roundHalfEven v =
     (let f = \<lfloor>v\<rfloor>; d = v - of_int f
      in if d < 1 / 2 then f else if 1 / 2 < d then f + 1 else if even f then f else f + 1)"

text \<open>
  The binary exponent of a real, the spacing of the doubles around it (53 significant
  bits; below 2 to the power -1022 the spacing stays that of the subnormal doubles), and the
  nearest double.
\<close>

definition expo :: "real \<Rightarrow> int" where
  "expo x = \<lfloor>log 2 \<bar>x\<bar>\<rfloor>"

definition ulp :: "real \<Rightarrow> real" where
  "ulp x = 2 powi (max (expo x) (- 1022) - 52)"

definition round64 :: "real \<Rightarrow> real" where
  "round64 x = (if x = 0 then 0 else of_int (roundHalfEven (x / ulp x)) * ulp x)"

datatype jsnum = Fin real | PInf | NInf | NaN

text \<open>The infinity of a given sign.\<close>

definition signed_inf :: "bool \<Rightarrow> jsnum" where
  "signed_inf positive = (if positive then PInf else NInf)"

text \<open>
  The result of an operation whose exact value is \<open>x\<close>: the nearest double, or an
  infinity when that lies beyond the largest double.
\<close>

definition overflowBound :: real where
  "overflowBound = 2 powi 1024"

definition fl :: "real \<Rightarrow> jsnum" where
  "fl x = (let r = round64 x in if overflowBound \<le> \<bar>r\<bar> then signed_inf (0 < r) else Fin r)"

fun js_neg :: "jsnum \<Rightarrow> jsnum" where
  "js_neg (Fin a) = Fin (- a)"
| "js_neg PInf = NInf"
| "js_neg NInf = PInf"
| "js_neg NaN = NaN"

fun js_add :: "jsnum \<Rightarrow> jsnum \<Rightarrow> jsnum" where
  "js_add NaN _ = NaN"
| "js_add _ NaN = NaN"
| "js_add (Fin a) (Fin b) = fl (a + b)"
| "js_add PInf NInf = NaN"
| "js_add NInf PInf = NaN"
| "js_add PInf _ = PInf"
| "js_add NInf _ = NInf"
| "js_add (Fin a) PInf = PInf"
| "js_add (Fin a) NInf = NInf"

definition js_sub :: "jsnum \<Rightarrow> jsnum \<Rightarrow> jsnum" where
  "js_sub a b = js_add a (js_neg b)"

fun js_mul :: "jsnum \<Rightarrow> jsnum \<Rightarrow> jsnum" where
  "js_mul NaN _ = NaN"
| "js_mul _ NaN = NaN"
| "js_mul (Fin a) (Fin b) = fl (a * b)"
| "js_mul (Fin a) PInf = (if a = 0 then NaN else signed_inf (0 < a))"
| "js_mul (Fin a) NInf = (if a = 0 then NaN else signed_inf (a < 0))"
| "js_mul PInf (Fin b) = (if b = 0 then NaN else signed_inf (0 < b))"
| "js_mul NInf (Fin b) = (if b = 0 then NaN else signed_inf (b < 0))"
| "js_mul PInf PInf = PInf"
| "js_mul PInf NInf = NInf"
| "js_mul NInf PInf = NInf"
| "js_mul NInf NInf = PInf"

fun js_div :: "jsnum \<Rightarrow> jsnum \<Rightarrow> jsnum" where
  "js_div NaN _ = NaN"
| "js_div _ NaN = NaN"
| "js_div (Fin a) (Fin b) =
     (if b \<noteq> 0 then fl (a / b) else if a = 0 then NaN else signed_inf (0 < a))"
| "js_div (Fin a) PInf = Fin 0"
| "js_div (Fin a) NInf = Fin 0"
| "js_div PInf (Fin b) = signed_inf (0 \<le> b)"
| "js_div NInf (Fin b) = signed_inf (b < 0)"
| "js_div PInf _ = NaN"
| "js_div NInf _ = NaN"

text \<open>\<^verbatim>\<open>a < b\<close>, \<^verbatim>\<open>a > b\<close> and \<^verbatim>\<open>a <= b\<close>: false as soon as one side is NaN.\<close>

fun js_lt :: "jsnum \<Rightarrow> jsnum \<Rightarrow> bool" where
  "js_lt NaN _ = False"
| "js_lt _ NaN = False"
| "js_lt (Fin a) (Fin b) = (a < b)"
| "js_lt NInf NInf = False"
| "js_lt NInf _ = True"
| "js_lt (Fin a) PInf = True"
| "js_lt (Fin a) NInf = False"
| "js_lt PInf _ = False"


fun js_le :: "jsnum \<Rightarrow> jsnum \<Rightarrow> bool" where
  "js_le NaN _ = False"
| "js_le _ NaN = False"
| "js_le (Fin a) (Fin b) = (a \<le> b)"
| "js_le NInf _ = True"
| "js_le _ PInf = True"
| "js_le (Fin a) NInf = False"
| "js_le PInf _ = False"





section \<open>Geometry (ImageUploader.tsx, App.tsx)\<close>








section \<open>The placement proposal and its gestures\<close>

text \<open>
  \<^verbatim>\<open>interface PlacedProduct { source: 'product1' | 'product2'; imageUrl: string;
  xPercent: number; yPercent: number; scale: number }\<close>
\<close>

datatype productSlot = Product1 | Product2

record PlacedProduct =
  source :: productSlot
  imageUrl :: string
  xPercent :: jsnum
  yPercent :: jsnum
  scale :: jsnum

text \<open>
  The part of \<^verbatim>\<open>handleProductDrop\<close> that builds the proposal, for a selected product
  with the given image: the position is the one handed over, the scale is \<^verbatim>\<open>1.0\<close>.
\<close>

definition newPlacedProduct :: "productSlot \<Rightarrow> string \<Rightarrow> jsnum \<times> jsnum \<Rightarrow> PlacedProduct" where
  "newPlacedProduct selectedProductSource selectedImageUrl relativePosition =
     \<lparr>source = selectedProductSource, imageUrl = selectedImageUrl,
      xPercent = fst relativePosition, yPercent = snd relativePosition, scale = Fin 1\<rparr>"


















section \<open>Mask encoding (ImageUploader.tsx, BackgroundRemovalModal)\<close>

text \<open>
  The data of an \<^verbatim>\<open>ImageData\<close> is a \<^verbatim>\<open>Uint8ClampedArray\<close>: bytes, four for each
  pixel (red, green, blue, alpha), row after row. Its length is a multiple of four.
\<close>

type_synonym byte = "8 word"

text \<open>
  The first loop of \<^verbatim>\<open>getMaskAsFile\<close>:
  \<^verbatim>\<open>for (let i = 3; i < data.length; i += 4) { if (data[i] > 0) { hasDrawing = true;
  break; } }\<close>
\<close>

fun hasDrawing :: "byte list \<Rightarrow> bool" where
  "hasDrawing (r # g # b # alpha # rest) = (if alpha > 0 then True else hasDrawing rest)"
| "hasDrawing _ = False"

text \<open>
  The second loop of \<^verbatim>\<open>getMaskAsFile\<close>, which fills \<^verbatim>\<open>newData\<close> pixel by pixel:
  white where the alpha is positive, black elsewhere, always opaque.
\<close>

fun encodeMask :: "byte list \<Rightarrow> byte list" where
  "encodeMask (r # g # b # alpha # rest) =
     (if alpha > 0 then [255, 255, 255, 255] else [0, 0, 0, 255]) @ encodeMask rest"
| "encodeMask _ = []"

text \<open>
  \<^verbatim>\<open>getMaskAsFile\<close> on the data of the mask canvas. \<open>None\<close> is the \<^verbatim>\<open>null\<close> it
  returns when nothing was drawn; the file (a PNG, lossless) is identified with the
  buffer it encodes. The canvas, its contexts and the blob are taken to be there.
\<close>

definition getMaskAsFile :: "byte list \<Rightarrow> byte list option" where
  "getMaskAsFile data = (if \<not> hasDrawing data then None else Some (encodeMask data))"

text \<open>
  \<^verbatim>\<open>handleConfirm\<close> of the background removal modal has its own copy of the encoding
  loop and hands the file to \<^verbatim>\<open>onConfirm\<close>. \<open>Some\<close> is the buffer handed over;
  there is no branch that returns without calling \<^verbatim>\<open>onConfirm\<close> once the canvas and
  its contexts exist.
\<close>

fun handleConfirmLoop :: "byte list \<Rightarrow> byte list" where
  "handleConfirmLoop (r # g # b # alpha # rest) =
     (if alpha > 0 then [255, 255, 255, 255] else [0, 0, 0, 255]) @ handleConfirmLoop rest"
| "handleConfirmLoop _ = []"

definition handleConfirm :: "byte list \<Rightarrow> byte list option" where
  "handleConfirm data = Some (handleConfirmLoop data)"

text \<open>
  A binary buffer in the words of the design: every pixel is opaque white or opaque
  black. A stroke layer nobody painted on: every alpha is zero.
\<close>

fun isBinary :: "byte list \<Rightarrow> bool" where
  "isBinary [] = True"
| "isBinary (r # g # b # alpha # rest) =
     (([r, g, b, alpha] = [255, 255, 255, 255] \<or> [r, g, b, alpha] = [0, 0, 0, 255])
      \<and> isBinary rest)"
| "isBinary _ = False"

fun allWhite :: "byte list \<Rightarrow> bool" where
  "allWhite [] = True"
| "allWhite (r # g # b # alpha # rest) =
     ([r, g, b, alpha] = [255, 255, 255, 255] \<and> allWhite rest)"
| "allWhite _ = False"

fun allTransparent :: "byte list \<Rightarrow> bool" where
  "allTransparent [] = True"
| "allTransparent (r # g # b # alpha # rest) = (alpha = 0 \<and> allTransparent rest)"
| "allTransparent _ = False"

section \<open>The application state and its commits (App.tsx)\<close>

text \<open>\<^verbatim>\<open>interface Edits\<close> and \<^verbatim>\<open>interface Product\<close> of types.ts.\<close>

record Edits =
  brightness :: real
  contrast :: real
  saturation :: real
  sharpen :: real
  vignette :: real

record Product =
  productId :: nat
  productName :: string
  productImageUrl :: string

text \<open>The value of \<^verbatim>\<open>handleResetEdits\<close>, also the initial one.\<close>

definition resetEdits :: Edits where
  "resetEdits = \<lparr>brightness = 100, contrast = 100, saturation = 100, sharpen = 0, vignette = 0\<rparr>"

text \<open>
  The state cells of \<^verbatim>\<open>App\<close> that the commits read or write, on top of the history
  cells. \<open>proposal\<close> is the cell \<^verbatim>\<open>placedProduct\<close> and \<open>errorMessage\<close> the cell
  \<^verbatim>\<open>error\<close>.
\<close>

record 'f app = "'f history" +
  proposal :: "PlacedProduct option"
  errorMessage :: "string option"
  isLoading :: bool
  isMaskingMode :: bool
  imageEdits :: Edits
  product1File :: "'f option"
  product2File :: "'f option"
  product1 :: "Product option"
  product2 :: "Product option"

text \<open>
  \<^verbatim>\<open>const currentHistoryEntry = sceneHistory[historyIndex] ?? null\<close> and
  \<^verbatim>\<open>const sceneImage = currentHistoryEntry?.file ?? null\<close>: an index outside the array
  reads \<^verbatim>\<open>undefined\<close>.
\<close>

definition currentHistoryEntry :: "('f, 'z) history_scheme \<Rightarrow> 'f HistoryEntry option" where
  "currentHistoryEntry s =
     (if 0 \<le> historyIndex s \<and> historyIndex s < int (length (sceneHistory s))
      then Some (sceneHistory s ! nat (historyIndex s)) else None)"

definition sceneImage :: "('f, 'z) history_scheme \<Rightarrow> 'f option" where
  "sceneImage s = map_option entryFile (currentHistoryEntry s)"

text \<open>
  What a rejected promise or a \<^verbatim>\<open>throw\<close> carries, and the message the handlers make of
  it: \<^verbatim>\<open>err instanceof Error ? err.message : 'An unknown error occurred.'\<close>
\<close>

datatype thrown = ErrorObject string | OtherValue

fun messageOf :: "thrown \<Rightarrow> string" where
  "messageOf (ErrorObject m) = m"
| "messageOf OtherValue = ''An unknown error occurred.''"

text \<open>
  The effect \<^verbatim>\<open>useEffect(() => { handleResetEdits(); setIsMaskingMode(false);
  setPlacedProduct(null); }, [historyIndex, handleResetEdits])\<close>: it runs after a
  render in which \<^verbatim>\<open>historyIndex\<close> has changed.
\<close>

definition historyIndexEffect :: "int \<Rightarrow> ('f, 'z) app_scheme \<Rightarrow> ('f, 'z) app_scheme" where
  "historyIndexEffect before s =
     (if historyIndex s \<noteq> before
      then s\<lparr>imageEdits := resetEdits, isMaskingMode := False, proposal := None\<rparr>
      else s)"

text \<open>
  The request of \<^verbatim>\<open>handleConfirmPlacement\<close> to the compositing service: product file
  and name, scene file, position and scale.
\<close>

record 'f compositeRequest =
  productFile :: 'f
  productLabel :: string
  sceneFile :: 'f
  position :: "jsnum \<times> jsnum"
  requestScale :: jsnum

text \<open>
  \<^verbatim>\<open>handleConfirmPlacement\<close>. The parameter \<open>generate\<close> stands for everything in the
  \<^verbatim>\<open>try\<close> block before the commit: the call of \<^verbatim>\<open>generateCompositeImage\<close>,
  \<^verbatim>\<open>dataURLtoFile\<close> and \<^verbatim>\<open>URL.createObjectURL\<close>; it gives the new entry, or what was
  thrown. The state returned is the one after the handler's \<^verbatim>\<open>finally\<close> block and the
  effect on \<^verbatim>\<open>historyIndex\<close>.
\<close>

definition handleConfirmPlacement ::
  "('f compositeRequest \<Rightarrow> thrown + 'f HistoryEntry) \<Rightarrow> ('f, 'z) app_scheme \<Rightarrow> ('f, 'z) app_scheme" where
  "handleConfirmPlacement generate s =
     (case (proposal s, sceneImage s) of
        (Some placed, Some scene) \<Rightarrow>
          (let productFileToUse = (if source placed = Product1 then product1File s else product2File s);
               productToUse = (if source placed = Product1 then product1 s else product2 s)
           in case (productFileToUse, productToUse) of
                (Some pf, Some pr) \<Rightarrow>
                  (let s1 = s\<lparr>isLoading := True, errorMessage := None\<rparr>;
                       s2 = (case generate \<lparr>productFile = pf, productLabel = productName pr,
                                             sceneFile = scene,
                                             position = (xPercent placed, yPercent placed),
                                             requestScale = scale placed\<rparr> of
                               Inr newEntry \<Rightarrow> commitEntry newEntry s1
                             | Inl err \<Rightarrow>
                                 s1\<lparr>errorMessage :=
                                      Some (''Failed to generate the image. '' @ messageOf err)\<rparr>)
                   in historyIndexEffect (historyIndex s) (s2\<lparr>isLoading := False, proposal := None\<rparr>))
              | _ \<Rightarrow> s\<lparr>errorMessage := Some ''An unexpected error occurred. Please try again.''\<rparr>)
      | _ \<Rightarrow> s\<lparr>errorMessage :=
                Some ''An unexpected error occurred. Missing product or scene data.''\<rparr>)"

text \<open>
  \<^verbatim>\<open>handleApplyInpainting\<close>, for the data the mask canvas holds. \<open>inpaint\<close> stands for
  the \<^verbatim>\<open>try\<close> block before the commit (\<^verbatim>\<open>inpaintImage\<close>, \<^verbatim>\<open>dataURLtoFile\<close>,
  \<^verbatim>\<open>URL.createObjectURL\<close>). The scene uploader's ref is set.
\<close>

definition handleApplyInpainting ::
  "('f \<Rightarrow> byte list \<Rightarrow> thrown + 'f HistoryEntry) \<Rightarrow> byte list \<Rightarrow> ('f, 'z) app_scheme
     \<Rightarrow> ('f, 'z) app_scheme" where
  "handleApplyInpainting inpaint maskData s =
     (case sceneImage s of
        None \<Rightarrow> s
      | Some scene \<Rightarrow>
          (case getMaskAsFile maskData of
             None \<Rightarrow> s\<lparr>errorMessage := Some
               ''Please paint a mask over the object you want to remove before confirming.''\<rparr>
           | Some maskFile \<Rightarrow>
               (let s1 = s\<lparr>isLoading := True, errorMessage := None, isMaskingMode := False\<rparr>;
                    s2 = (case inpaint scene maskFile of
                            Inr newEntry \<Rightarrow> commitEntry newEntry s1
                          | Inl err \<Rightarrow>
                              s1\<lparr>errorMessage := Some
                                (''Failed to remove object from the scene. '' @ messageOf err)\<rparr>)
                in historyIndexEffect (historyIndex s) (s2\<lparr>isLoading := False\<rparr>))))"

text \<open>
  \<^verbatim>\<open>handleReset\<close>, the action of the "Try Again" button, on these cells, and the
  branch of \<^verbatim>\<open>renderContent\<close> that is taken: with an error set, only the error panel
  and that button are rendered.
\<close>

definition handleReset :: "('f, 'z) app_scheme \<Rightarrow> ('f, 'z) app_scheme" where
  "handleReset s =
     s\<lparr>product1 := None, product1File := None, product2 := None, product2File := None,
       sceneHistory := [], historyIndex := -1, errorMessage := None, isLoading := False,
       proposal := None, isMaskingMode := False\<rparr>"

datatype view = ErrorPanel string | UploadPanel | EditorPanel

definition renderContent :: "('f, 'z) app_scheme \<Rightarrow> view" where
  "renderContent s =
     (case errorMessage s of
        Some e \<Rightarrow> ErrorPanel e
      | None \<Rightarrow> if product1File s = None \<or> sceneImage s = None then UploadPanel else EditorPanel)"

text \<open>
  A service that fails with the given value whatever it is asked, and the request
  that \<^verbatim>\<open>handleConfirmPlacement\<close> sends for a proposal.
\<close>

definition failWith :: "thrown \<Rightarrow> 'a \<Rightarrow> thrown + 'b" where
  "failWith err request = Inl err"

definition failWith2 :: "thrown \<Rightarrow> 'a \<Rightarrow> 'c \<Rightarrow> thrown + 'b" where
  "failWith2 err scene maskFile = Inl err"

definition requestOf :: "'f \<Rightarrow> Product \<Rightarrow> 'f \<Rightarrow> PlacedProduct \<Rightarrow> 'f compositeRequest" where
  "requestOf pf pr scene placed =
     \<lparr>productFile = pf, productLabel = productName pr, sceneFile = scene,
      position = (xPercent placed, yPercent placed), requestScale = scale placed\<rparr>"

text \<open>A session with one scene, one product and a proposal at the centre.\<close>

definition sampleApp :: "string app" where
  "sampleApp =
     \<lparr>sceneHistory = [entryOf ''A''], historyIndex = 0,
      proposal = Some (newPlacedProduct Product1 ''blob:p1'' (Fin 50, Fin 50)),
      errorMessage = None, isLoading = False, isMaskingMode = False,
      imageEdits = resetEdits, product1File = Some ''chair.png'', product2File = None,
      product1 = Some \<lparr>productId = 1, productName = ''chair.png'',
                       productImageUrl = ''blob:p1''\<rparr>,
      product2 = None\<rparr>"

section \<open>The pixel pipeline (App.tsx, ImageUploader.tsx)\<close>

text \<open>
  A store into a \<^verbatim>\<open>Uint8ClampedArray\<close>: NaN is stored as 0, any other number is
  clamped to [0, 255] and rounded to the nearest integer, a tie going to the even one.
\<close>

fun toUint8Clamped :: "jsnum \<Rightarrow> byte" where
  "toUint8Clamped (Fin v) =
     (if v \<le> 0 then 0 else if 255 \<le> v then 255 else word_of_int (roundHalfEven v))"
| "toUint8Clamped PInf = 255"
| "toUint8Clamped NInf = 0"
| "toUint8Clamped NaN = 0"

text \<open>\<^verbatim>\<open>getImageData\<close> and \<^verbatim>\<open>createImageData\<close> throw on an empty rectangle.\<close>

datatype canvasError = IndexSizeError

text \<open>
  \<^verbatim>\<open>applySharpen\<close>, the same text in App.tsx and in ImageUploader.tsx. \<open>src\<close> is
  the data read by \<^verbatim>\<open>ctx.getImageData(0, 0, width, height)\<close>, of length
  \<open>width * height * 4\<close>; the result is the data written back by \<^verbatim>\<open>putImageData\<close>.
\<close>

definition weights :: "real list" where
  "weights = [0, -1, 0, -1, 5, -1, 0, -1, 0]"

definition side :: nat where
  "side = 3"

definition halfSide :: int where
  "halfSide = 1"

text \<open>
  The body of the two inner loops, for the kernel cell \<open>(cx, cy)\<close>:
  \<^verbatim>\<open>scy = Math.min(height - 1, Math.max(0, y + cy - halfSide))\<close>, the same for
  \<open>scx\<close>, \<^verbatim>\<open>srcOff = (scy * width + scx) * 4\<close>, and the three sums. The sums are
  sums of nine products of a byte and a weight: integers of magnitude below 12000,
  which doubles hold exactly, so they are written without rounding.
\<close>

definition kernelStep ::
  "nat \<Rightarrow> nat \<Rightarrow> byte list \<Rightarrow> nat \<Rightarrow> nat \<Rightarrow> nat \<Rightarrow> nat \<Rightarrow> real \<times> real \<times> real
     \<Rightarrow> real \<times> real \<times> real" where
  "kernelStep width height src x y cy cx acc =
     (let scy = min (int height - 1) (max 0 (int y + int cy - halfSide));
          scx = min (int width - 1) (max 0 (int x + int cx - halfSide));
          srcOff = nat ((scy * int width + scx) * 4);
          wt = weights ! (cy * side + cx)
      in case acc of (r, g, b) \<Rightarrow>
           (r + real (unat (src ! srcOff)) * wt,
            g + real (unat (src ! (srcOff + 1))) * wt,
            b + real (unat (src ! (srcOff + 2))) * wt))"

definition convolve :: "nat \<Rightarrow> nat \<Rightarrow> byte list \<Rightarrow> nat \<Rightarrow> nat \<Rightarrow> real \<times> real \<times> real" where
  "convolve width height src x y =
     fold (\<lambda>cy acc. fold (\<lambda>cx acc'. kernelStep width height src x y cy cx acc') [0..<side] acc)
       [0..<side] (0, 0, 0)"

text \<open>
  The four bytes stored at \<open>dstOff = (y * width + x) * 4\<close>. \<open>strength\<close> is the
  double \<^verbatim>\<open>amount / 100\<close>, and
  \<^verbatim>\<open>originalR * (1 - strength) + r * strength\<close> is evaluated in doubles, operation by
  operation.
\<close>

definition sharpenPixel :: "nat \<Rightarrow> nat \<Rightarrow> jsnum \<Rightarrow> byte list \<Rightarrow> nat \<Rightarrow> nat \<Rightarrow> byte list" where
  "sharpenPixel width height strength src x y =
     (let dstOff = (y * width + x) * 4;
          originalR = real (unat (src ! dstOff));
          originalG = real (unat (src ! (dstOff + 1)));
          originalB = real (unat (src ! (dstOff + 2)))
      in case convolve width height src x y of (r, g, b) \<Rightarrow>
           [toUint8Clamped (js_add (js_mul (Fin originalR) (js_sub (Fin 1) strength))
                                   (js_mul (Fin r) strength)),
            toUint8Clamped (js_add (js_mul (Fin originalG) (js_sub (Fin 1) strength))
                                   (js_mul (Fin g) strength)),
            toUint8Clamped (js_add (js_mul (Fin originalB) (js_sub (Fin 1) strength))
                                   (js_mul (Fin b) strength)),
            src ! (dstOff + 3)])"

text \<open>
  The two outer loops visit the pixels row by row and write each pixel's four bytes
  once, at increasing offsets: the output is the rows one after the other.
\<close>

definition applySharpen :: "nat \<Rightarrow> nat \<Rightarrow> real \<Rightarrow> byte list \<Rightarrow> canvasError + byte list" where
  "applySharpen width height amount src =
     (if amount \<le> 0 then Inr src
      else if width = 0 \<or> height = 0 then Inl IndexSizeError
      else let strength = js_div (Fin amount) (Fin 100)
           in Inr (concat (map (\<lambda>y. concat (map (\<lambda>x. sharpenPixel width height strength src x y)
                                                [0..<width]))
                            [0..<height])))"

text \<open>
  The sharpening in the words of the design: the sample of channel \<open>c\<close> at a position
  that may lie one step outside the image, read at the nearest pixel inside
  (edge replication); the 3 x 3 kernel as a matrix; the convolution; and the blend
  \<open>original * (1 - s) + convolved * s\<close> with \<open>s = amount / 100\<close>, in the arithmetic
  of the code.
\<close>

definition edgeSample :: "nat \<Rightarrow> nat \<Rightarrow> byte list \<Rightarrow> nat \<Rightarrow> int \<Rightarrow> int \<Rightarrow> real" where
  "edgeSample width height src c px py =
     real (unat (src ! ((nat (min (int height - 1) (max 0 py)) * width
                         + nat (min (int width - 1) (max 0 px))) * 4 + c)))"

definition kernel :: "real list list" where
  "kernel = [[0, -1, 0], [-1, 5, -1], [0, -1, 0]]"

definition convolved :: "nat \<Rightarrow> nat \<Rightarrow> byte list \<Rightarrow> nat \<Rightarrow> nat \<Rightarrow> nat \<Rightarrow> real" where
  "convolved width height src c x y =
     (\<Sum>j < 3. \<Sum>i < 3. kernel ! j ! i
                          * edgeSample width height src c (int x + int i - 1) (int y + int j - 1))"

definition blend :: "real \<Rightarrow> real \<Rightarrow> real \<Rightarrow> jsnum" where
  "blend amount original conv =
     (let s = js_div (Fin amount) (Fin 100)
      in js_add (js_mul (Fin original) (js_sub (Fin 1) s)) (js_mul (Fin conv) s))"

text \<open>
  The vignette block of \<^verbatim>\<open>applyEditsToImageFile\<close>. The gradient is the object built by
  \<^verbatim>\<open>ctx.createRadialGradient(w/2, h/2, h/4, w/2, h/2, outerRadius)\<close> and the three
  calls of \<^verbatim>\<open>addColorStop\<close>; a colour \<^verbatim>\<open>rgba(r, g, b, a)\<close> is a quadruple.
\<close>

type_synonym rgba = "real \<times> real \<times> real \<times> real"

record RadialGradient =
  gradX0 :: real
  gradY0 :: real
  gradR0 :: real
  gradX1 :: real
  gradY1 :: real
  gradR1 :: real
  colorStops :: "(real \<times> rgba) list"

definition vignetteGradient :: "real \<Rightarrow> real \<Rightarrow> real \<Rightarrow> RadialGradient" where
  "vignetteGradient w h amount =
     (let strength = amount / 100;
          outerRadius = sqrt (w * w + h * h) / 2
      in \<lparr>gradX0 = w / 2, gradY0 = h / 2, gradR0 = h / 4,
          gradX1 = w / 2, gradY1 = h / 2, gradR1 = outerRadius,
          colorStops = [(0, (0, 0, 0, 0)),
                        (1 / 2, (0, 0, 0, strength * (2 / 10))),
                        (1, (0, 0, 0, strength * (7 / 10)))]\<rparr>)"

text \<open>
  \<^verbatim>\<open>if (edits.vignette > 0) { ...; ctx.fillStyle = gradient; ctx.fillRect(0, 0, w, h); }\<close>
  The parameter \<open>fillRect\<close> is the canvas's filling of the rectangle with a gradient.
\<close>

definition vignetteStage ::
  "(RadialGradient \<Rightarrow> nat \<Rightarrow> nat \<Rightarrow> byte list \<Rightarrow> byte list) \<Rightarrow> nat \<Rightarrow> nat \<Rightarrow> real \<Rightarrow> byte list
     \<Rightarrow> byte list" where
  "vignetteStage fillRect w h amount canvas =
     (if amount > 0 then fillRect (vignetteGradient (real w) (real h) amount) w h canvas
      else canvas)"

text \<open>
  The canvas's radial gradients: between the start circle (radius \<open>r0\<close>) and the end
  circle (radius \<open>r1\<close>) around one centre, the colour of offset \<open>t\<close> lies on the
  circle of radius \<open>r0 + t * (r1 - r0)\<close>.
\<close>

definition stopRadius :: "RadialGradient \<Rightarrow> real \<Rightarrow> real" where
  "stopRadius g t = gradR0 g + t * (gradR1 g - gradR0 g)"






definition keepCanvas :: "RadialGradient \<Rightarrow> nat \<Rightarrow> nat \<Rightarrow> byte list \<Rightarrow> byte list" where
  "keepCanvas g w h canvas = canvas"


definition sampleImage :: "byte list" where
  "sampleImage = [200, 200, 200, 255, 100, 100, 100, 255]"

text \<open>A second image of two pixels, dark grey 3 and dark grey 8.\<close>

definition darkImage :: "byte list" where
  "darkImage = [3, 3, 3, 255, 8, 8, 8, 255]"

subsection \<open>Facts about slicing and the cursor\<close>

lemma js_slice_prefix:
  "-1 \<le> i \<Longrightarrow> js_slice xs 0 (i + 1) = take (nat (i + 1)) xs"
  by (auto simp: js_slice_def Let_def min_def)

lemma js_slice_from_suffix:
  "-1 \<le> i \<Longrightarrow> js_slice_from xs (i + 1) = drop (nat (i + 1)) xs"
  by (auto simp: js_slice_from_def js_slice_def Let_def min_def)

lemma cursorOk_bounds:
  "cursorOk h \<Longrightarrow> -1 \<le> historyIndex h \<and> historyIndex h < int (length (sceneHistory h))"
  by (auto simp: cursorOk_def split: if_splits)

lemma cursorOk_commitEntry: "cursorOk h \<Longrightarrow> cursorOk (commitEntry e h)"
  by (simp add: cursorOk_def commitEntry_def Let_def)

lemma cursorOk_undoHistory: "cursorOk h \<Longrightarrow> cursorOk (undoHistory h)"
  by (auto simp: cursorOk_def undoHistory_def split: if_splits)

lemma cursorOk_redoHistory: "cursorOk h \<Longrightarrow> cursorOk (redoHistory h)"
  by (auto simp: cursorOk_def redoHistory_def split: if_splits)

text \<open>
  C2. For every history and every cursor from \<open>-1\<close> on, a commit keeps exactly the
  entries up to and including the cursor, drops every entry after it (those are the
  pruned ones), appends the new entry and moves the cursor to the new last index; when
  the cursor satisfies the invariant of the stack, that is one past the old cursor and
  the invariant holds again. From [A, B, C] with cursor 2, undo, undo, commit D gives
  [A, D] with cursor 1.
\<close>

theorem commit_truncates_after_cursor:
  assumes "-1 \<le> historyIndex h"
  shows "sceneHistory (commitEntry e h) = take (nat (historyIndex h + 1)) (sceneHistory h) @ [e]
     \<and> prunedHistory h = drop (nat (historyIndex h + 1)) (sceneHistory h)
     \<and> historyIndex (commitEntry e h) = int (length (sceneHistory (commitEntry e h))) - 1
     \<and> (cursorOk h \<longrightarrow> historyIndex (commitEntry e h) = historyIndex h + 1
                       \<and> cursorOk (commitEntry e h))
     \<and> commitEntry (entryOf ''D'') (undoHistory (undoHistory
          \<lparr>sceneHistory = [entryOf ''A'', entryOf ''B'', entryOf ''C''], historyIndex = 2\<rparr>))
        = \<lparr>sceneHistory = [entryOf ''A'', entryOf ''D''], historyIndex = 1\<rparr>"
proof -
  have keep: "js_slice (sceneHistory h) 0 (historyIndex h + 1)
                = take (nat (historyIndex h + 1)) (sceneHistory h)"
    using assms by (rule js_slice_prefix)
  have pruned: "prunedHistory h = drop (nat (historyIndex h + 1)) (sceneHistory h)"
    unfolding prunedHistory_def using assms by (rule js_slice_from_suffix)
  have entries: "sceneHistory (commitEntry e h)
                   = take (nat (historyIndex h + 1)) (sceneHistory h) @ [e]"
    by (simp add: commitEntry_def Let_def keep)
  have last_index: "historyIndex (commitEntry e h)
                      = int (length (sceneHistory (commitEntry e h))) - 1"
    by (simp add: commitEntry_def Let_def)
  have advance: "historyIndex (commitEntry e h) = historyIndex h + 1" if "cursorOk h"
    using cursorOk_bounds [OF that] by (auto simp: commitEntry_def Let_def keep min_def)
  have example: "commitEntry (entryOf ''D'') (undoHistory (undoHistory
          \<lparr>sceneHistory = [entryOf ''A'', entryOf ''B'', entryOf ''C''], historyIndex = 2\<rparr>))
        = \<lparr>sceneHistory = [entryOf ''A'', entryOf ''D''], historyIndex = 1\<rparr>"
    by (simp add: commitEntry_def undoHistory_def js_slice_def Let_def)
  from entries pruned last_index advance cursorOk_commitEntry example show ?thesis by blast
qed

theorem commit_truncates_after_cursor_witness:
  "(-1::int) \<le> 0
   \<and> cursorOk \<lparr>sceneHistory = [entryOf ''A'', entryOf ''B'', entryOf ''C''], historyIndex = 0\<rparr>
   \<and> sceneHistory (commitEntry (entryOf ''D'')
        \<lparr>sceneHistory = [entryOf ''A'', entryOf ''B'', entryOf ''C''], historyIndex = 0\<rparr>)
      = [entryOf ''A'', entryOf ''D'']
   \<and> prunedHistory
        \<lparr>sceneHistory = [entryOf ''A'', entryOf ''B'', entryOf ''C''], historyIndex = 0\<rparr>
      = [entryOf ''B'', entryOf ''C'']
   \<and> historyIndex (commitEntry (entryOf ''D'')
        \<lparr>sceneHistory = [entryOf ''A'', entryOf ''B'', entryOf ''C''], historyIndex = 0\<rparr>) = 1"
proof -
  let ?h = "\<lparr>sceneHistory = [entryOf ''A'', entryOf ''B'', entryOf ''C''], historyIndex = 0\<rparr>"
  have ok: "cursorOk ?h"
    by (simp add: cursorOk_def)
  have i: "-1 \<le> historyIndex ?h"
    by simp
  show ?thesis
    using ok commit_truncates_after_cursor [OF i, of "entryOf ''D''"] by simp
qed

section \<open>Facts about rounding to a double\<close>

lemma roundHalfEven_of_int [simp]: "roundHalfEven (of_int n) = n"
  by (simp add: roundHalfEven_def)

lemma roundHalfEven_cases: "roundHalfEven v = \<lfloor>v\<rfloor> \<or> roundHalfEven v = \<lfloor>v\<rfloor> + 1"
  by (simp add: roundHalfEven_def Let_def)

lemma roundHalfEven_mono:
  assumes "x \<le> y"
  shows "roundHalfEven x \<le> roundHalfEven y"
proof (cases "\<lfloor>x\<rfloor> = \<lfloor>y\<rfloor>")
  case True
  have "x - of_int \<lfloor>x\<rfloor> \<le> y - of_int \<lfloor>y\<rfloor>"
    using assms True by simp
  then show ?thesis
    using True by (auto simp: roundHalfEven_def Let_def)
next
  case False
  with assms have "\<lfloor>x\<rfloor> < \<lfloor>y\<rfloor>"
    by (simp add: floor_mono order.strict_iff_order)
  moreover have "roundHalfEven x \<le> \<lfloor>x\<rfloor> + 1" "\<lfloor>y\<rfloor> \<le> roundHalfEven y"
    using roundHalfEven_cases [of x] roundHalfEven_cases [of y] by auto
  ultimately show ?thesis by linarith
qed


lemma roundHalfEven_minus: "roundHalfEven (- x) = - roundHalfEven x"
proof (cases "x = of_int \<lfloor>x\<rfloor>")
  case True
  have "roundHalfEven (- of_int \<lfloor>x\<rfloor>) = - roundHalfEven (of_int \<lfloor>x\<rfloor>)"
    using roundHalfEven_of_int [of "- \<lfloor>x\<rfloor>"] by simp
  with True show ?thesis by simp
next
  case False
  have lo: "of_int \<lfloor>x\<rfloor> < x"
    using False of_int_floor_le [of x] by linarith
  have hi: "x < of_int \<lfloor>x\<rfloor> + 1"
    by linarith
  have floor_neg: "\<lfloor>- x\<rfloor> = - \<lfloor>x\<rfloor> - 1"
  proof (rule floor_unique)
    show "of_int (- \<lfloor>x\<rfloor> - 1) \<le> - x"
      using hi by simp linarith
    show "- x < of_int (- \<lfloor>x\<rfloor> - 1) + 1"
      using lo by simp
  qed
  define f where "f = \<lfloor>x\<rfloor>"
  define d where "d = x - of_int f"
  have d: "0 < d" "d < 1" and x: "x = of_int f + d"
    unfolding d_def f_def using lo by linarith+
  have e: "even (- f - 1) \<longleftrightarrow> odd f"
    by simp
  show ?thesis
    unfolding roundHalfEven_def Let_def floor_neg f_def [symmetric]
    using d e by (simp add: x) 
qed


lemma powr_powi: "(2::real) powr of_int k = 2 powi k"
  by (simp add: powr_real_of_int')

lemma expo_bounds:
  assumes "x \<noteq> 0"
  shows "2 powi (expo x) \<le> \<bar>x\<bar>" "\<bar>x\<bar> < 2 powi (expo x + 1)"
proof -
  have "0 < \<bar>x\<bar>" using assms by simp
  then have "2 powr of_int (expo x) \<le> \<bar>x\<bar> \<and> \<bar>x\<bar> < 2 powr (of_int (expo x) + 1)"
    using floor_log_eq_powr_iff [of "\<bar>x\<bar>" 2 "expo x"] by (simp add: expo_def)
  moreover have "(2::real) powr (of_int (expo x) + 1) = 2 powi (expo x + 1)"
    using powr_powi [of "expo x + 1"] by simp
  ultimately show "2 powi (expo x) \<le> \<bar>x\<bar>" "\<bar>x\<bar> < 2 powi (expo x + 1)"
    by (simp_all add: powr_powi)
qed

lemma expo_eqI:
  assumes "2 powi e \<le> \<bar>x\<bar>" "\<bar>x\<bar> < 2 powi (e + 1)"
  shows "expo x = e"
proof -
  have "0 < (2::real) powi e" by simp
  with assms(1) have "0 < \<bar>x\<bar>" by linarith
  moreover have "(2::real) powr (of_int e + 1) = 2 powi (e + 1)"
    using powr_powi [of "e + 1"] by simp
  ultimately show ?thesis
    using floor_log_eq_powr_iff [of "\<bar>x\<bar>" 2 e] assms by (simp add: expo_def powr_powi)
qed

lemma expo_minus [simp]: "expo (- x) = expo x"
  by (simp add: expo_def)

lemma ulp_minus [simp]: "ulp (- x) = ulp x"
  by (simp add: ulp_def)

lemma ulp_pos [simp]: "0 < ulp x"
  by (simp add: ulp_def)

lemma ulp_nonneg [simp]: "0 \<le> ulp x"
  by (simp add: ulp_def)

lemma ulp_neq0 [simp]: "ulp x \<noteq> 0"
  by (simp add: ulp_def)

lemma round64_minus: "round64 (- x) = - round64 x"
  by (simp add: round64_def roundHalfEven_minus)

lemma round64_0 [simp]: "round64 0 = 0"
  by (simp add: round64_def)

lemma expo_mono:
  assumes "0 < x" "x \<le> y"
  shows "expo x \<le> expo y"
proof -
  have "log 2 x \<le> log 2 y"
    using assms by simp
  then show ?thesis
    using assms by (simp add: expo_def floor_mono)
qed

lemma roundHalfEven_le: "x \<le> of_int n \<Longrightarrow> roundHalfEven x \<le> n"
  using roundHalfEven_mono [of x "of_int n"] by simp

lemma roundHalfEven_ge: "of_int n \<le> x \<Longrightarrow> n \<le> roundHalfEven x"
  using roundHalfEven_mono [of "of_int n" x] by simp

lemma round64_nonneg: "0 \<le> x \<Longrightarrow> 0 \<le> round64 x"
proof -
  assume "0 \<le> x"
  then have "of_int 0 \<le> x / ulp x" by simp
  then have "0 \<le> roundHalfEven (x / ulp x)" by (rule roundHalfEven_ge)
  then show ?thesis by (simp add: round64_def)
qed


lemma powi2_add: "(2::real) powi (a + b) = 2 powi a * 2 powi b"
  by (simp add: power_int_add)

lemma powi2_diff: "(2::real) powi (a - b) = 2 powi a / 2 powi b"
  by (simp add: power_int_diff)

lemma powi2_53: "(2::real) powi 53 * 2 powi (k - 52) = 2 powi (k + 1)"
  using powi2_add [of 53 "k - 52"] by (simp add: add.commute)

lemma powi2_52: "(2::real) powi 52 * 2 powi (k - 52) = 2 powi k"
  using powi2_add [of 52 "k - 52"] by simp

lemma powi2_div_53: "(2::real) powi (k + 1) / 2 powi (k - 52) = 2 powi 53"
  using powi2_diff [of "k + 1" "k - 52"] by simp

lemma powi2_div_52: "(2::real) powi k / 2 powi (k - 52) = 2 powi 52"
  using powi2_diff [of k "k - 52"] by simp

lemma round64_mono_pos:
  assumes "0 < x" "x \<le> y"
  shows "round64 x \<le> round64 y"
proof -
  have y: "0 < y" using assms by simp
  let ?kx = "max (expo x) (- 1022)" and ?ky = "max (expo y) (- 1022)"
  have k: "?kx \<le> ?ky"
    using expo_mono [OF assms] by simp
  have rx: "round64 x = of_int (roundHalfEven (x / ulp x)) * ulp x"
    and ry: "round64 y = of_int (roundHalfEven (y / ulp y)) * ulp y"
    using assms y by (simp_all add: round64_def)
  show ?thesis
  proof (cases "?kx = ?ky")
    case True
    then have u: "ulp x = ulp y" by (simp add: ulp_def)
    have "x / ulp y \<le> y / ulp y"
      using assms(2) by (simp add: divide_right_mono)
    then have "roundHalfEven (x / ulp y) \<le> roundHalfEven (y / ulp y)"
      by (rule roundHalfEven_mono)
    then have "of_int (roundHalfEven (x / ulp y)) * ulp y
                 \<le> (of_int (roundHalfEven (y / ulp y)) :: real) * ulp y"
      by (intro mult_right_mono) simp_all
    then show ?thesis by (simp add: rx ry u)
  next
    case False
    from k False have lt: "?kx < ?ky" by (rule le_neq_trans)
    then have ky: "?ky = expo y" by linarith
    have "x < 2 powi (expo x + 1)"
      using expo_bounds(2) [of x] assms(1) by simp
    also have "\<dots> \<le> 2 powi (?kx + 1)"
      by (intro power_int_increasing) simp_all
    finally have xlt: "x < 2 powi (?kx + 1)" .
    have "x / ulp x \<le> 2 powi (?kx + 1) / 2 powi (?kx - 52)"
      using xlt by (simp add: ulp_def divide_right_mono)
    also have "\<dots> = 2 powi 53"
      by (rule powi2_div_53)
    finally have "x / ulp x \<le> of_int (2 ^ 53)" by simp
    then have "roundHalfEven (x / ulp x) \<le> 2 ^ 53"
      by (rule roundHalfEven_le)
    then have "(of_int (roundHalfEven (x / ulp x)) :: real) \<le> of_int (2 ^ 53)"
      by (simp only: of_int_le_iff)
    then have "round64 x \<le> of_int (2 ^ 53) * ulp x"
      unfolding rx by (intro mult_right_mono) simp_all
    also have "\<dots> = 2 powi 53 * 2 powi (?kx - 52)"
      by (simp add: ulp_def)
    also have "\<dots> = 2 powi (?kx + 1)"
      by (rule powi2_53)
    also have "\<dots> \<le> 2 powi ?ky"
    proof (rule power_int_increasing)
      show "?kx + 1 \<le> ?ky" using lt by linarith
    qed simp
    finally have upper: "round64 x \<le> 2 powi ?ky" .
    have "2 powi ?ky \<le> y"
      using expo_bounds(1) [of y] y ky by simp
    then have "2 powi ?ky / 2 powi (?ky - 52) \<le> y / ulp y"
      by (simp add: ulp_def divide_right_mono)
    moreover have "(2::real) powi ?ky / 2 powi (?ky - 52) = 2 powi 52"
      by (rule powi2_div_52)
    ultimately have "of_int (2 ^ 52) \<le> y / ulp y" by simp
    then have "2 ^ 52 \<le> roundHalfEven (y / ulp y)"
      by (rule roundHalfEven_ge)
    then have "(of_int (2 ^ 52) :: real) \<le> of_int (roundHalfEven (y / ulp y))"
      by (simp only: of_int_le_iff)
    then have "of_int (2 ^ 52) * ulp y \<le> round64 y"
      unfolding ry by (intro mult_right_mono) simp_all
    moreover have "of_int (2 ^ 52) * ulp y = 2 powi 52 * 2 powi (?ky - 52)"
      by (simp add: ulp_def)
    moreover have "(2::real) powi 52 * 2 powi (?ky - 52) = 2 powi ?ky"
      by (rule powi2_52)
    ultimately have "2 powi ?ky \<le> round64 y" by simp
    with upper show ?thesis by linarith
  qed
qed

lemma round64_mono:
  assumes "x \<le> y"
  shows "round64 x \<le> round64 y"
proof -
  consider "0 < x" | "x \<le> 0" "0 \<le> y" | "y < 0" by linarith
  then show ?thesis
  proof cases
    case 1
    then show ?thesis using assms by (rule round64_mono_pos)
  next
    case 2
    have "0 \<le> round64 (- x)" using 2(1) by (intro round64_nonneg) simp
    then have "round64 x \<le> 0" by (simp add: round64_minus)
    moreover have "0 \<le> round64 y" using 2(2) by (rule round64_nonneg)
    ultimately show ?thesis by linarith
  next
    case 3
    then have "0 < - y" "- y \<le> - x" using assms by simp_all
    then have "round64 (- y) \<le> round64 (- x)" by (rule round64_mono_pos)
    then show ?thesis by (simp add: round64_minus)
  qed
qed


lemma round64_eval:
  assumes "2 powi e \<le> \<bar>x\<bar>" "\<bar>x\<bar> < 2 powi (e + 1)"
  shows "round64 x = of_int (roundHalfEven (x / 2 powi (max e (- 1022) - 52)))
                       * 2 powi (max e (- 1022) - 52)"
proof -
  have "0 < (2::real) powi e" by simp
  with assms(1) have "0 < \<bar>x\<bar>" by linarith
  then have "x \<noteq> 0" by simp
  moreover have "expo x = e" using assms by (rule expo_eqI)
  ultimately show ?thesis by (simp add: round64_def ulp_def)
qed

lemma expo_powi2: "expo (2 powi k) = k"
  by (rule expo_eqI) (simp_all add: power_int_strict_increasing)

lemma round64_representable:
  assumes "\<bar>m\<bar> < 2 ^ 53" "- 1074 \<le> k"
  shows "round64 (of_int m * 2 powi k) = of_int m * 2 powi k"
proof (cases "m = 0")
  case True
  then show ?thesis by simp
next
  case False
  define x :: real where "x = of_int m * 2 powi k"
  have x0: "x \<noteq> 0" using False by (simp add: x_def)
  have absx: "\<bar>x\<bar> = of_int \<bar>m\<bar> * 2 powi k"
    by (simp add: abs_mult x_def)
  have "1 \<le> \<bar>m\<bar>" using False by simp
  then have "(1::real) \<le> of_int \<bar>m\<bar>" by linarith
  then have "1 * 2 powi k \<le> of_int \<bar>m\<bar> * (2::real) powi k"
    by (intro mult_right_mono) simp_all
  then have lo: "2 powi k \<le> \<bar>x\<bar>" by (simp add: absx)
  have "expo (2 powi k) \<le> expo \<bar>x\<bar>"
    using lo by (intro expo_mono) simp_all
  moreover have "expo \<bar>x\<bar> = expo x" by (simp add: expo_def)
  ultimately have ek: "k \<le> expo x" by (simp only: expo_powi2)
  have "(of_int \<bar>m\<bar> :: real) < of_int (2 ^ 53)"
    using assms(1) by (simp only: of_int_less_iff)
  then have "of_int \<bar>m\<bar> * (2::real) powi k < of_int (2 ^ 53) * 2 powi k"
    by (intro mult_strict_right_mono) simp_all
  also have "\<dots> = 2 powi (k + 53)"
    using powi2_add [of 53 k] by (simp add: add.commute)
  finally have hi: "\<bar>x\<bar> < 2 powi (k + 53)" by (simp add: absx)
  have ek2: "expo x < k + 53"
  proof (rule ccontr)
    assume "\<not> expo x < k + 53"
    then have "k + 53 \<le> expo x" by simp
    then have "(2::real) powi (k + 53) \<le> 2 powi (expo x)"
      by (intro power_int_increasing) simp_all
    also have "\<dots> \<le> \<bar>x\<bar>" using expo_bounds(1) [OF x0] .
    finally show False using hi by simp
  qed
  define j where "j = max (expo x) (- 1022) - 52"
  have jk: "j \<le> k" using ek2 assms(2) by (simp add: j_def)
  have u: "ulp x = 2 powi j" by (simp add: ulp_def j_def)
  have split: "(2::real) powi k = 2 powi (k - j) * 2 powi j"
    using powi2_add [of "k - j" j] by simp
  have nat: "(2::real) powi (k - j) = of_int (2 ^ nat (k - j))"
    using jk by (simp add: power_int_def)
  have "x = of_int m * (2 powi (k - j) * 2 powi j)"
    unfolding x_def by (simp only: split [symmetric])
  then have xs: "x = of_int (m * 2 ^ nat (k - j)) * 2 powi j"
    by (simp add: nat)
  have q: "x / 2 powi j = of_int (m * 2 ^ nat (k - j))"
    by (subst xs) simp
  have "round64 x = of_int (roundHalfEven (x / 2 powi j)) * 2 powi j"
    using x0 by (simp add: round64_def u)
  also have "\<dots> = of_int (m * 2 ^ nat (k - j)) * 2 powi j"
    by (simp only: q roundHalfEven_of_int)
  also have "\<dots> = x" by (rule xs [symmetric])
  finally show ?thesis by (simp only: x_def)
qed

lemma round64_of_int: "\<bar>n\<bar> < 2 ^ 53 \<Longrightarrow> round64 (of_int n) = of_int n"
  using round64_representable [of n 0] by simp

lemma round64_numeral [simp]:
  "(numeral k :: int) < 2 ^ 53 \<Longrightarrow> round64 (numeral k) = numeral k"
  using round64_of_int [of "numeral k"] by simp

lemma round64_1 [simp]: "round64 1 = 1"
  using round64_of_int [of 1] by simp

lemma overflowBound_pos [simp]: "0 < overflowBound"
  by (simp add: overflowBound_def)

lemma overflowBound_not_le0 [simp]: "\<not> overflowBound \<le> 0"
  using overflowBound_pos by linarith


lemma fl_not_NaN [simp]: "fl x \<noteq> NaN"
  by (simp add: fl_def Let_def signed_inf_def)

lemma fl_Fin: "\<bar>round64 x\<bar> < overflowBound \<Longrightarrow> fl x = Fin (round64 x)"
  by (simp add: fl_def Let_def)


lemma fl_exact: "round64 x = x \<Longrightarrow> \<bar>x\<bar> < overflowBound \<Longrightarrow> fl x = Fin x"
  by (simp add: fl_def Let_def)

lemma fl_0 [simp]: "fl 0 = Fin 0"
  by (simp add: fl_def)



lemma small_below_overflow: "\<bar>x\<bar> \<le> 2 ^ 64 \<Longrightarrow> \<bar>x\<bar> < overflowBound"
proof -
  have "(2::real) ^ 64 < 2 powi 1024"
    using power_int_strict_increasing [of 64 1024 "2::real"] by simp
  then show "\<bar>x\<bar> \<le> 2 ^ 64 \<Longrightarrow> \<bar>x\<bar> < overflowBound"
    by (simp add: overflowBound_def)
qed

lemma numeral_below_overflow:
  assumes "(numeral k :: int) < 2 ^ 53"
  shows "\<bar>numeral k :: real\<bar> < overflowBound"
proof -
  have "real_of_int (numeral k) < real_of_int (2 ^ 53)"
    using assms by (simp only: of_int_less_iff)
  then have b: "(numeral k :: real) < 2 ^ 53"
    by (simp only: of_int_numeral of_int_power)
  have c: "(2::real) ^ 53 \<le> 2 ^ 64" by simp
  have d: "\<bar>numeral k :: real\<bar> = numeral k" by simp
  from b c d have "\<bar>numeral k :: real\<bar> \<le> 2 ^ 64" by linarith
  then show ?thesis by (rule small_below_overflow)
qed

lemma fl_numeral [simp]:
  "(numeral k :: int) < 2 ^ 53 \<Longrightarrow> fl (numeral k) = Fin (numeral k)"
  using numeral_below_overflow [of k] by (simp add: fl_exact)

lemma fl_1 [simp]: "fl 1 = Fin 1"
  using small_below_overflow [of 1] by (simp add: fl_exact)

lemma fl_neg_numeral [simp]:
  "(numeral k :: int) < 2 ^ 53 \<Longrightarrow> fl (- numeral k) = Fin (- numeral k)"
  using numeral_below_overflow [of k] by (simp add: fl_exact round64_minus)

lemma round64_half [simp]: "round64 (1 / 2) = 1 / 2"
  using round64_representable [of 1 "- 1"] by simp

lemma fl_half [simp]: "fl (1 / 2) = Fin (1 / 2)"
  using small_below_overflow [of "1 / 2"] by (simp add: fl_exact)

lemma fl_eval:
  assumes "2 powi e \<le> \<bar>x\<bar>" "\<bar>x\<bar> < 2 powi (e + 1)" "- 1022 \<le> e" "e < 1023"
  shows "fl x = Fin (of_int (roundHalfEven (x / 2 powi (e - 52))) * 2 powi (e - 52))"
proof -
  have r: "round64 (2 powi (e + 1)) = 2 powi (e + 1)"
    using round64_representable [of 1 "e + 1"] assms(3) by simp
  have up: "round64 \<bar>x\<bar> \<le> 2 powi (e + 1)"
    using round64_mono [of "\<bar>x\<bar>" "2 powi (e + 1)"] assms(2) r by simp
  have "round64 \<bar>x\<bar> = \<bar>round64 x\<bar>"
    using round64_nonneg [of x] round64_nonneg [of "- x"]
    by (cases "0 \<le> x") (simp_all add: round64_minus abs_if)
  with up have "\<bar>round64 x\<bar> \<le> 2 powi (e + 1)" by simp
  moreover have "(2::real) powi (e + 1) < 2 powi 1024"
    using assms(4) by (intro power_int_strict_increasing) simp_all
  ultimately have "\<bar>round64 x\<bar> < overflowBound" by (simp add: overflowBound_def)
  then have "fl x = Fin (round64 x)" by (rule fl_Fin)
  moreover have "max e (- 1022) = e" using assms(3) by simp
  ultimately show ?thesis
    using round64_eval [OF assms(1,2)] by simp
qed

lemma not_lt_iff_le: "a \<noteq> NaN \<Longrightarrow> b \<noteq> NaN \<Longrightarrow> (\<not> js_lt a b) = js_le b a"
  by (cases a; cases b) auto

lemma js_add_Fin_not_NaN [simp]: "js_add (Fin a) (Fin b) \<noteq> NaN"
  by simp


section \<open>Properties of the geometry\<close>



















section \<open>Properties of the pinch\<close>

















section \<open>Properties of the proposal\<close>
















section \<open>Properties of the commits that call a service\<close>

lemma confirm_placement_failure:
  assumes "proposal s = Some placed" "sceneImage s = Some scene"
    and "(if source placed = Product1 then product1File s else product2File s) = Some pf"
    and "(if source placed = Product1 then product1 s else product2 s) = Some pr"
    and "generate (requestOf pf pr scene placed) = Inl err"
  shows "handleConfirmPlacement generate s =
           s\<lparr>errorMessage := Some (''Failed to generate the image. '' @ messageOf err),
             isLoading := False, proposal := None\<rparr>"
  using assms
  by (simp add: handleConfirmPlacement_def Let_def requestOf_def historyIndexEffect_def)

lemma inpainting_failure:
  assumes "sceneImage s = Some scene" "getMaskAsFile maskData = Some maskFile"
    and "inpaint scene maskFile = Inl err"
  shows "handleApplyInpainting inpaint maskData s =
           s\<lparr>errorMessage := Some (''Failed to remove object from the scene. '' @ messageOf err),
             isLoading := False, isMaskingMode := False\<rparr>"
  using assms
  by (simp add: handleApplyInpainting_def Let_def historyIndexEffect_def)

text \<open>
  C5, as the code has it. When the service call of a confirm-placement or of an
  inpainting commit fails, the history (entries and cursor) is exactly what it was and
  the failure is shown as an error message with the loading flag cleared. The
  confirm-placement handler clears the active proposal in its \<^verbatim>\<open>finally\<close> block; the
  inpainting handler leaves the proposal as it was and has left masking mode. With the
  error set, only the error panel is rendered, and its one action resets the session,
  which empties the history.
\<close>

theorem service_failure_keeps_history:
  assumes "proposal s = Some placed" "sceneImage s = Some scene"
    and "(if source placed = Product1 then product1File s else product2File s) = Some pf"
    and "(if source placed = Product1 then product1 s else product2 s) = Some pr"
    and "generate (requestOf pf pr scene placed) = Inl err"
    and "sceneImage t = Some scene'" "getMaskAsFile maskData = Some maskFile"
    and "inpaint scene' maskFile = Inl err'"
  shows "sceneHistory (handleConfirmPlacement generate s) = sceneHistory s
       \<and> historyIndex (handleConfirmPlacement generate s) = historyIndex s
       \<and> errorMessage (handleConfirmPlacement generate s)
           = Some (''Failed to generate the image. '' @ messageOf err)
       \<and> isLoading (handleConfirmPlacement generate s) = False
       \<and> proposal (handleConfirmPlacement generate s) = None
       \<and> renderContent (handleConfirmPlacement generate s)
           = ErrorPanel (''Failed to generate the image. '' @ messageOf err)
       \<and> sceneHistory (handleReset (handleConfirmPlacement generate s)) = []
       \<and> sceneHistory (handleApplyInpainting inpaint maskData t) = sceneHistory t
       \<and> historyIndex (handleApplyInpainting inpaint maskData t) = historyIndex t
       \<and> proposal (handleApplyInpainting inpaint maskData t) = proposal t
       \<and> errorMessage (handleApplyInpainting inpaint maskData t)
           = Some (''Failed to remove object from the scene. '' @ messageOf err')
       \<and> isLoading (handleApplyInpainting inpaint maskData t) = False
       \<and> isMaskingMode (handleApplyInpainting inpaint maskData t) = False"
proof -
  note c = confirm_placement_failure [where generate = generate, OF assms(1-5)]
  note i = inpainting_failure [where inpaint = inpaint, OF assms(6-8)]
  show ?thesis
    by (simp add: c i renderContent_def handleReset_def)
qed

theorem service_failure_keeps_history_witness:
  "sceneHistory (handleConfirmPlacement (failWith (ErrorObject ''503'')) sampleApp)
     = [entryOf ''A'']
   \<and> historyIndex (handleConfirmPlacement (failWith (ErrorObject ''503'')) sampleApp) = 0
   \<and> errorMessage (handleConfirmPlacement (failWith (ErrorObject ''503'')) sampleApp)
       = Some ''Failed to generate the image. 503''
   \<and> sceneHistory (handleApplyInpainting (failWith2 OtherValue) [0, 0, 0, 9]
        (sampleApp\<lparr>proposal := None, isMaskingMode := True\<rparr>)) = [entryOf ''A'']
   \<and> errorMessage (handleApplyInpainting (failWith2 OtherValue) [0, 0, 0, 9]
        (sampleApp\<lparr>proposal := None, isMaskingMode := True\<rparr>))
       = Some ''Failed to remove object from the scene. An unknown error occurred.''"
proof -
  let ?placed = "newPlacedProduct Product1 ''blob:p1'' (Fin 50, Fin 50)"
  let ?pr = "\<lparr>productId = 1, productName = ''chair.png'', productImageUrl = ''blob:p1''\<rparr>"
  let ?t = "sampleApp\<lparr>proposal := None, isMaskingMode := True\<rparr>"
  have a1: "proposal sampleApp = Some ?placed"
    by (simp add: sampleApp_def)
  have a2: "sceneImage sampleApp = Some ''A''"
    by (simp add: sampleApp_def sceneImage_def currentHistoryEntry_def entryOf_def)
  have a3: "(if source ?placed = Product1 then product1File sampleApp
             else product2File sampleApp) = Some ''chair.png''"
    by (simp add: sampleApp_def newPlacedProduct_def)
  have a4: "(if source ?placed = Product1 then product1 sampleApp else product2 sampleApp)
              = Some ?pr"
    by (simp add: sampleApp_def newPlacedProduct_def)
  have a5: "failWith (ErrorObject ''503'') (requestOf ''chair.png'' ?pr ''A'' ?placed)
              = (Inl (ErrorObject ''503'') :: thrown + string HistoryEntry)"
    by (simp add: failWith_def)
  have a6: "sceneImage ?t = Some ''A''"
    by (simp add: sampleApp_def sceneImage_def currentHistoryEntry_def entryOf_def)
  have a7: "getMaskAsFile [0, 0, 0, 9] = Some [255, 255, 255, 255]"
    by (simp add: getMaskAsFile_def)
  have a8: "failWith2 OtherValue ''A'' [255, 255, 255, 255 :: byte]
              = (Inl OtherValue :: thrown + string HistoryEntry)"
    by (simp add: failWith2_def)
  show ?thesis
    using service_failure_keeps_history
      [where generate = "failWith (ErrorObject ''503'')" and inpaint = "failWith2 OtherValue",
        OF a1 a2 a3 a4 a5 a6 a7 a8]
    by (simp add: sampleApp_def)
qed

text \<open>
  The claim of C5 as it was stated fails on the proposal: a confirm-placement whose
  service call fails leaves no proposal, where there was one before the attempt.
\<close>

theorem failed_confirm_clears_proposal_counterexample:
  "proposal sampleApp = Some (newPlacedProduct Product1 ''blob:p1'' (Fin 50, Fin 50))
   \<and> proposal (handleConfirmPlacement (failWith (ErrorObject ''503'')) sampleApp) = None
   \<and> proposal (handleConfirmPlacement (failWith (ErrorObject ''503'')) sampleApp)
       \<noteq> proposal sampleApp"
  by (simp add: handleConfirmPlacement_def sampleApp_def sceneImage_def
      currentHistoryEntry_def newPlacedProduct_def failWith_def historyIndexEffect_def
      entryOf_def)

section \<open>Properties of the mask encoding\<close>

lemma handleConfirmLoop_encodeMask: "handleConfirmLoop data = encodeMask data"
  by (induction data rule: encodeMask.induct) simp_all

lemma encodeMask_binary: "isBinary data \<Longrightarrow> encodeMask data = replicate (length data) 255"
  by (induction data rule: isBinary.induct) auto

lemma hasDrawing_binary: "isBinary data \<Longrightarrow> data \<noteq> [] \<Longrightarrow> hasDrawing data"
  by (induction data rule: isBinary.induct) auto

lemma white_iff_allWhite:
  "isBinary data \<Longrightarrow> (replicate (length data) 255 = data) = allWhite data"
  by (induction data rule: isBinary.induct) auto

lemma allTransparent_no_drawing: "allTransparent data \<Longrightarrow> \<not> hasDrawing data"
  by (induction data rule: allTransparent.induct) auto

lemma allTransparent_rejected: "allTransparent data \<Longrightarrow> getMaskAsFile data = None"
  by (simp add: getMaskAsFile_def allTransparent_no_drawing)

lemma allTransparent_black:
  "allTransparent data \<Longrightarrow>
     handleConfirmLoop data = concat (replicate (length data div 4) [0, 0, 0, 255])"
  by (induction data rule: allTransparent.induct) auto

lemma inpainting_rejects_empty_mask:
  "sceneImage s = Some scene \<Longrightarrow> allTransparent maskData \<Longrightarrow>
     handleApplyInpainting inpaint maskData s =
       s\<lparr>errorMessage := Some
         ''Please paint a mask over the object you want to remove before confirming.''\<rparr>"
  by (simp add: handleApplyInpainting_def allTransparent_rejected)

text \<open>
  C6. On a stroke layer of two pixels that nobody painted on, the remove-object path
  rejects the layer: \<^verbatim>\<open>getMaskAsFile\<close> gives no mask, and the handler only sets the
  message asking for a mask. The manual background-removal path does not: the modal's
  \<^verbatim>\<open>handleConfirm\<close> encodes an all-black mask and hands it to \<^verbatim>\<open>onConfirm\<close>.
\<close>

theorem modal_accepts_empty_mask:
  "allTransparent [0, 0, 0, 0, 0, 0, 0, 0]
   \<and> getMaskAsFile [0, 0, 0, 0, 0, 0, 0, 0] = None
   \<and> handleApplyInpainting (failWith2 OtherValue) [0, 0, 0, 0, 0, 0, 0, 0]
        (sampleApp\<lparr>proposal := None, isMaskingMode := True\<rparr>)
       = sampleApp\<lparr>proposal := None, isMaskingMode := True, errorMessage := Some
           ''Please paint a mask over the object you want to remove before confirming.''\<rparr>
   \<and> handleConfirm [0, 0, 0, 0, 0, 0, 0, 0] = Some [0, 0, 0, 255, 0, 0, 0, 255]"
  by (simp add: getMaskAsFile_def handleConfirm_def handleApplyInpainting_def sampleApp_def
      sceneImage_def currentHistoryEntry_def entryOf_def)

text \<open>
  C8, as the code has it. The encoder looks at the alpha only, and every pixel of a
  binary buffer is opaque: a binary buffer that is not empty is encoded as the
  all-white opaque buffer of the same size, by \<^verbatim>\<open>getMaskAsFile\<close> and by the modal's
  \<^verbatim>\<open>handleConfirm\<close> alike. So the encoder returns a binary buffer unchanged exactly
  when the buffer has no black pixel.
\<close>

theorem encode_binary_gives_white:
  assumes "isBinary data" "data \<noteq> []"
  shows "getMaskAsFile data = Some (replicate (length data) 255)
       \<and> handleConfirm data = Some (replicate (length data) 255)
       \<and> (getMaskAsFile data = Some data \<longleftrightarrow> allWhite data)"
proof -
  have e: "encodeMask data = replicate (length data) 255"
    using assms(1) by (rule encodeMask_binary)
  have g: "getMaskAsFile data = Some (replicate (length data) 255)"
    using hasDrawing_binary [OF assms] by (simp add: getMaskAsFile_def e)
  have h: "handleConfirm data = Some (replicate (length data) 255)"
    by (simp add: handleConfirm_def handleConfirmLoop_encodeMask e)
  have u: "getMaskAsFile data = Some data \<longleftrightarrow> allWhite data"
    using white_iff_allWhite [OF assms(1)] by (simp add: g)
  from g h u show ?thesis by blast
qed

theorem encode_binary_gives_white_witness:
  "isBinary [255, 255, 255, 255, 0, 0, 0, 255]
   \<and> [255, 255, 255, 255, 0, 0, 0, 255] \<noteq> ([] :: byte list)
   \<and> getMaskAsFile [255, 255, 255, 255, 0, 0, 0, 255]
       = Some [255, 255, 255, 255, 255, 255, 255, 255]
   \<and> \<not> allWhite [255, 255, 255, 255, 0, 0, 0, 255]"
proof -
  have b: "isBinary [255, 255, 255, 255, 0, 0, 0, 255]"
    and n: "[255, 255, 255, 255, 0, 0, 0, 255] \<noteq> ([] :: byte list)"
    by simp_all
  have g: "getMaskAsFile [255, 255, 255, 255, 0, 0, 0, 255]
       = Some [255, 255, 255, 255, 255, 255, 255, 255]"
    by (simp add: getMaskAsFile_def)
  have w: "\<not> allWhite [255, 255, 255, 255, 0, 0, 0, 255]"
    by simp
  show ?thesis
    using encode_binary_gives_white [OF b n] b n g w by blast
qed

text \<open>
  The claim of C8 as it was stated fails on the binary buffer of one black pixel: the
  encoder returns one white pixel.
\<close>

theorem encode_black_pixel_counterexample:
  "isBinary [0, 0, 0, 255]
   \<and> getMaskAsFile [0, 0, 0, 255] = Some [255, 255, 255, 255]
   \<and> getMaskAsFile [0, 0, 0, 255] \<noteq> Some [0, 0, 0, 255]"
  by (simp add: getMaskAsFile_def)

section \<open>Properties of the pixel pipeline\<close>

lemma upt_3: "[0..<3] = [0, 1, 2]"
  by (simp add: upt_rec numeral_eq_Suc)

lemma length_concat_uniform:
  "(\<And>i. i < n \<Longrightarrow> length (f i) = k) \<Longrightarrow> length (concat (map f [0..<n])) = n * k"
  by (induction n) simp_all

lemma block_index_less:
  assumes "i < n" "j < k"
  shows "i * k + j < n * (k::nat)"
proof -
  have "i * k + j < i * k + k" using assms(2) by simp
  also have "\<dots> = Suc i * k" by simp
  also have "\<dots> \<le> n * k" using assms(1) by (intro mult_le_mono1) simp
  finally show ?thesis .
qed

lemma nth_concat_uniform:
  "(\<And>i. i < n \<Longrightarrow> length (f i) = k) \<Longrightarrow> i < n \<Longrightarrow> j < k \<Longrightarrow>
     concat (map f [0..<n]) ! (i * k + j) = f i ! j"
proof (induction n)
  case 0
  then show ?case by simp
next
  case (Suc n)
  have len: "length (concat (map f [0..<n])) = n * k"
    using Suc.prems(1) by (intro length_concat_uniform) simp
  show ?case
  proof (cases "i < n")
    case True
    have "i * k + j < n * k"
      using True Suc.prems(3) by (rule block_index_less)
    moreover have "concat (map f [0..<n]) ! (i * k + j) = f i ! j"
      using Suc.prems True by (intro Suc.IH) simp_all
    ultimately show ?thesis
      by (simp add: nth_append len)
  next
    case False
    with Suc.prems(2) have "i = n" by simp
    then show ?thesis
      by (simp add: nth_append len)
  qed
qed

lemma length_sharpenPixel: "length (sharpenPixel w h s src x y) = 4"
  by (simp add: sharpenPixel_def Let_def split: prod.splits)

lemma srcOff_nat:
  assumes "0 \<le> a" "0 \<le> b"
  shows "nat ((a * int w + b) * 4) = (nat a * w + nat b) * 4"
proof -
  have "0 \<le> a * int w" using assms(1) by simp
  then show ?thesis
    using assms by (simp add: nat_add_distrib nat_mult_distrib)
qed

lemma kernelStep_edgeSample:
  assumes "0 < w" "0 < h"
  shows "kernelStep w h src x y cy cx (r, g, b) =
     (r + edgeSample w h src 0 (int x + int cx - 1) (int y + int cy - 1) * (weights ! (cy * 3 + cx)),
      g + edgeSample w h src 1 (int x + int cx - 1) (int y + int cy - 1) * (weights ! (cy * 3 + cx)),
      b + edgeSample w h src 2 (int x + int cx - 1) (int y + int cy - 1) * (weights ! (cy * 3 + cx)))"
proof -
  let ?a = "min (int h - 1) (max 0 (int y + int cy - 1))"
  let ?b = "min (int w - 1) (max 0 (int x + int cx - 1))"
  have "0 \<le> ?a" "0 \<le> ?b" using assms by simp_all
  then have "nat ((?a * int w + ?b) * 4) = (nat ?a * w + nat ?b) * 4"
    by (rule srcOff_nat)
  then show ?thesis
    by (simp add: kernelStep_def edgeSample_def Let_def halfSide_def side_def)
qed

lemma convolve_unfold:
  assumes "0 < w" "0 < h"
  shows "convolve w h src x y =
     (convolved w h src 0 x y, convolved w h src 1 x y, convolved w h src 2 x y)"
  by (simp add: convolve_def side_def upt_3 kernelStep_edgeSample [OF assms] convolved_def
      kernel_def weights_def numeral_3_eq_3)


lemma sharpenPixel_nth:
  assumes "0 < w" "0 < h" "c < 3"
  shows "sharpenPixel w h (js_div (Fin amount) (Fin 100)) src x y ! c =
           toUint8Clamped (blend amount (real (unat (src ! ((y * w + x) * 4 + c))))
                                        (convolved w h src c x y))"
    and "sharpenPixel w h s src x y ! 3 = src ! ((y * w + x) * 4 + 3)"
proof -
  from assms(3) consider "c = 0" | "c = 1" | "c = 2" by linarith
  then show "sharpenPixel w h (js_div (Fin amount) (Fin 100)) src x y ! c =
           toUint8Clamped (blend amount (real (unat (src ! ((y * w + x) * 4 + c))))
                                        (convolved w h src c x y))"
    by cases (simp_all add: sharpenPixel_def Let_def convolve_unfold [OF assms(1,2)] blend_def
        del: js_div.simps)
  show "sharpenPixel w h s src x y ! 3 = src ! ((y * w + x) * 4 + 3)"
    by (simp add: sharpenPixel_def Let_def convolve_unfold [OF assms(1,2)])
qed

lemma sharpenRows_nth:
  assumes "x < w" "y < h" "j < 4"
  shows "concat (map (\<lambda>y. concat (map (\<lambda>x. sharpenPixel w h s src x y) [0..<w])) [0..<h])
           ! ((y * w + x) * 4 + j) = sharpenPixel w h s src x y ! j"
proof -
  let ?row = "\<lambda>y. concat (map (\<lambda>x. sharpenPixel w h s src x y) [0..<w])"
  have row_len: "length (?row y') = w * 4" for y'
    by (intro length_concat_uniform) (simp add: length_sharpenPixel)
  have inner: "x * 4 + j < w * 4"
    using assms(1,3) by (rule block_index_less)
  have "concat (map ?row [0..<h]) ! (y * (w * 4) + (x * 4 + j)) = ?row y ! (x * 4 + j)"
    using row_len assms(2) inner by (intro nth_concat_uniform) simp_all
  also have "\<dots> = sharpenPixel w h s src x y ! j"
    using assms(1,3) by (intro nth_concat_uniform) (simp_all add: length_sharpenPixel)
  finally show ?thesis
    by (simp add: algebra_simps)
qed

lemma sharpenRows_length:
  "length (concat (map (\<lambda>y. concat (map (\<lambda>x. sharpenPixel w h s src x y) [0..<w])) [0..<h]))
     = w * h * 4"
proof -
  have "length (concat (map (\<lambda>x. sharpenPixel w h s src x y') [0..<w])) = w * 4" for y'
    by (intro length_concat_uniform) (simp add: length_sharpenPixel)
  then have "length (concat (map (\<lambda>y. concat (map (\<lambda>x. sharpenPixel w h s src x y) [0..<w])) [0..<h]))
     = h * (w * 4)"
    by (rule length_concat_uniform
        [where f = "\<lambda>y. concat (map (\<lambda>x. sharpenPixel w h s src x y) [0..<w])"])
  then show ?thesis by (simp add: algebra_simps)
qed

lemma convolved_cross:
  "convolved w h src c x y =
     5 * edgeSample w h src c (int x) (int y)
     - edgeSample w h src c (int x) (int y - 1)
     - edgeSample w h src c (int x - 1) (int y)
     - edgeSample w h src c (int x + 1) (int y)
     - edgeSample w h src c (int x) (int y + 1)"
  by (simp add: convolved_def kernel_def numeral_3_eq_3 add.commute)

lemma applySharpen_pixel:
  assumes "0 < amount" "x < width" "y < height" "c < 3"
  shows "\<exists>dst. applySharpen width height amount src = Inr dst
           \<and> length dst = width * height * 4
           \<and> dst ! ((y * width + x) * 4 + c)
               = toUint8Clamped (blend amount
                   (real (unat (src ! ((y * width + x) * 4 + c))))
                   (convolved width height src c x y))
           \<and> dst ! ((y * width + x) * 4 + 3) = src ! ((y * width + x) * 4 + 3)"
proof -
  let ?s = "js_div (Fin amount) (Fin 100)"
  let ?dst = "concat (map (\<lambda>y. concat (map (\<lambda>x. sharpenPixel width height ?s src x y)
                                                [0..<width])) [0..<height])"
  have pos: "0 < width" "0 < height" using assms by auto
  have run: "applySharpen width height amount src = Inr ?dst"
    using assms(1) pos by (simp add: applySharpen_def del: js_div.simps)
  have len: "length ?dst = width * height * 4"
    by (rule sharpenRows_length)
  have xy: "x < width" "y < height" and c: "c < 3" "c < 4" "(3::nat) < 4"
    using assms by simp_all
  have rgb: "?dst ! ((y * width + x) * 4 + c)
               = toUint8Clamped (blend amount
                   (real (unat (src ! ((y * width + x) * 4 + c))))
                   (convolved width height src c x y))"
    by (simp only: sharpenRows_nth [OF xy c(2)] sharpenPixel_nth(1) [OF pos c(1)])
  have alpha: "?dst ! ((y * width + x) * 4 + 3) = src ! ((y * width + x) * 4 + 3)"
    by (simp only: sharpenRows_nth [OF xy c(3)] sharpenPixel_nth(2) [OF pos c(1)])
  from run len rgb alpha show ?thesis by blast
qed

lemma fl_minus: "fl (- x) = js_neg (fl x)"
  by (auto simp: fl_def Let_def round64_minus signed_inf_def)

text \<open>
  The blend of the amounts 50 and 30 on small samples, operation by operation. With the
  amount 30 the strength is the double nearest to 0.3 and \<open>1 - strength\<close> the double
  nearest to 0.7; for the sample 3 with the convolution -2 the sum is
  1.4999999999999996 (over the reals it would be 1.5).
\<close>

lemma fl_3_10: "fl (3 / 10) = Fin (5404319552844595 / 18014398509481984)"
  by (subst fl_eval [where e = "- 2"]) (simp_all add: roundHalfEven_def)

lemma fl_one_minus: "fl (12610078956637389 / 18014398509481984) = Fin (3152519739159347 / 4503599627370496)"
  by (subst fl_eval [where e = "- 1"]) (simp_all add: roundHalfEven_def)

lemma fl_3_times: "fl (9457559217478041 / 4503599627370496) = Fin (1182194902184755 / 562949953421312)"
  by (subst fl_eval [where e = 1]) (simp_all add: roundHalfEven_def)

lemma fl_2_times: "fl (5404319552844595 / 9007199254740992) = Fin (5404319552844595 / 9007199254740992)"
  by (subst fl_eval [where e = "- 1"]) (simp_all add: roundHalfEven_def)

lemma fl_sum_3: "fl (13510798882111485 / 9007199254740992) = Fin (3377699720527871 / 2251799813685248)"
  by (subst fl_eval [where e = 0]) (simp_all add: roundHalfEven_def)

lemma fl_8_times: "fl (3152519739159347 / 562949953421312) = Fin (3152519739159347 / 562949953421312)"
  by (subst fl_eval [where e = 2]) (simp_all add: roundHalfEven_def)

lemma fl_13_times: "fl (70256154186979735 / 18014398509481984) = Fin (8782019273372467 / 2251799813685248)"
  by (subst fl_eval [where e = 1]) (simp_all add: roundHalfEven_def)

lemma fl_sum_8: "fl (21392098230009855 / 2251799813685248) = Fin (19 / 2)"
  by (subst fl_eval [where e = 3]) (simp_all add: roundHalfEven_def)

lemmas blend_30_steps =
  fl_3_10 fl_one_minus fl_3_times fl_2_times fl_sum_3 fl_8_times fl_13_times fl_sum_8 fl_minus

lemma blend_30_dark:
  "blend 30 3 (- 2) = Fin (3377699720527871 / 2251799813685248)"
  "blend 30 8 13 = Fin (19 / 2)"
  by (simp_all add: blend_def js_sub_def blend_30_steps)

text \<open>
  C10. For an amount that is not positive, \<^verbatim>\<open>applySharpen\<close> leaves the buffer as it
  is. For a positive amount and a buffer of \<open>width * height\<close> pixels it computes, for
  every pixel and each of the channels R, G, B, the 3 x 3 convolution with the kernel
  [[0,-1,0],[-1,5,-1],[0,-1,0]], reading positions outside the image at the nearest
  pixel inside, and stores \<open>original * (1 - s) + convolved * s\<close> with
  \<open>s = amount / 100\<close>, each operation rounded to a double; the store into the byte
  buffer clamps the number to [0, 255] and rounds it. The alpha is copied. The
  convolution is five times the pixel less its four neighbours.
\<close>

theorem sharpen_is_kernel_blend:
  "(amount \<le> 0 \<longrightarrow> applySharpen width height amount src = Inr src)
   \<and> (0 < amount \<and> length src = width * height * 4 \<and> x < width \<and> y < height \<and> c < 3 \<longrightarrow>
        (\<exists>dst. applySharpen width height amount src = Inr dst
           \<and> length dst = length src
           \<and> dst ! ((y * width + x) * 4 + c)
               = toUint8Clamped (blend amount
                   (real (unat (src ! ((y * width + x) * 4 + c))))
                   (convolved width height src c x y))
           \<and> dst ! ((y * width + x) * 4 + 3) = src ! ((y * width + x) * 4 + 3)))
   \<and> convolved width height src c x y =
        5 * edgeSample width height src c (int x) (int y)
        - edgeSample width height src c (int x) (int y - 1)
        - edgeSample width height src c (int x - 1) (int y)
        - edgeSample width height src c (int x + 1) (int y)
        - edgeSample width height src c (int x) (int y + 1)"
proof (intro conjI impI)
  assume "amount \<le> 0"
  then show "applySharpen width height amount src = Inr src"
    by (simp add: applySharpen_def)
next
  assume a: "0 < amount \<and> length src = width * height * 4 \<and> x < width \<and> y < height \<and> c < 3"
  then have "\<exists>dst. applySharpen width height amount src = Inr dst
           \<and> length dst = width * height * 4
           \<and> dst ! ((y * width + x) * 4 + c)
               = toUint8Clamped (blend amount
                   (real (unat (src ! ((y * width + x) * 4 + c))))
                   (convolved width height src c x y))
           \<and> dst ! ((y * width + x) * 4 + 3) = src ! ((y * width + x) * 4 + 3)"
    by (intro applySharpen_pixel) simp_all
  with a show "\<exists>dst. applySharpen width height amount src = Inr dst
           \<and> length dst = length src
           \<and> dst ! ((y * width + x) * 4 + c)
               = toUint8Clamped (blend amount
                   (real (unat (src ! ((y * width + x) * 4 + c))))
                   (convolved width height src c x y))
           \<and> dst ! ((y * width + x) * 4 + 3) = src ! ((y * width + x) * 4 + 3)"
    by auto
next
  show "convolved width height src c x y =
        5 * edgeSample width height src c (int x) (int y)
        - edgeSample width height src c (int x) (int y - 1)
        - edgeSample width height src c (int x - 1) (int y)
        - edgeSample width height src c (int x + 1) (int y)
        - edgeSample width height src c (int x) (int y + 1)"
    by (rule convolved_cross)
qed

text \<open>
  Two runs on an image of two pixels. Grey 200 and grey 100 with the amount 50 give
  250 and 50. Grey 3 and grey 8 with the amount 30 give 1 and 10: the convolutions are
  -2 and 13, and the first blend is 1.4999999999999996, stored as 1.
\<close>

theorem sharpen_is_kernel_blend_witness:
  "(0::real) < 30 \<and> length darkImage = 2 * 1 * 4
   \<and> applySharpen 2 1 30 darkImage = Inr [1, 1, 1, 255, 10, 10, 10, 255]
   \<and> convolved 2 1 darkImage 0 0 0 = - 2
   \<and> blend 30 3 (- 2) = Fin (3377699720527871 / 2251799813685248)
   \<and> toUint8Clamped (blend 30 3 (- 2)) = 1
   \<and> applySharpen 2 1 50 sampleImage = Inr [250, 250, 250, 255, 50, 50, 50, 255]
   \<and> applySharpen 2 1 0 sampleImage = Inr sampleImage"
proof -
  have run: "applySharpen 2 1 30 darkImage = Inr [1, 1, 1, 255, 10, 10, 10, 255]"
    by (simp add: darkImage_def applySharpen_def upt_rec sharpenPixel_def convolve_unfold
        convolved_cross edgeSample_def js_sub_def blend_30_steps roundHalfEven_def)
  have run2: "applySharpen 2 1 50 sampleImage = Inr [250, 250, 250, 255, 50, 50, 50, 255]"
    by (simp add: sampleImage_def applySharpen_def upt_rec sharpenPixel_def convolve_unfold
        convolved_cross edgeSample_def js_sub_def roundHalfEven_def)
  have conv: "convolved 2 1 darkImage 0 0 0 = - 2"
    by (simp add: darkImage_def convolved_cross edgeSample_def)
  have store: "toUint8Clamped (blend 30 3 (- 2)) = 1"
    by (simp add: blend_30_dark roundHalfEven_def)
  have len: "length darkImage = 2 * 1 * 4"
    by (simp add: darkImage_def)
  have px: "real (unat (darkImage ! ((0 * 2 + 0) * 4 + 0))) = 3"
    by (simp add: darkImage_def)
  have a: "(0::real) < 30 \<and> length darkImage = 2 * 1 * 4 \<and> (0::nat) < 2 \<and> (0::nat) < 1 \<and> (0::nat) < 3"
    using len by simp
  note t = sharpen_is_kernel_blend [of 30 2 1 darkImage 0 0 0]
  from t a obtain dst where d: "applySharpen 2 1 30 darkImage = Inr dst"
    "dst ! ((0 * 2 + 0) * 4 + 0)
       = toUint8Clamped (blend 30 (real (unat (darkImage ! ((0 * 2 + 0) * 4 + 0))))
           (convolved 2 1 darkImage 0 0 0))"
    by blast
  from d(1) run have dst: "dst = [1, 1, 1, 255, 10, 10, 10, 255]"
    by simp
  from d(2) have "dst ! ((0 * 2 + 0) * 4 + 0) = toUint8Clamped (blend 30 3 (- 2))"
    by (simp only: px conv)
  then have "toUint8Clamped (blend 30 3 (- 2)) = 1"
    by (simp add: dst)
  moreover have "applySharpen 2 1 0 sampleImage = Inr sampleImage"
    using sharpen_is_kernel_blend [of 0 2 1 sampleImage 0 0 0] by simp
  ultimately show ?thesis
    using run run2 conv len blend_30_dark(1) by simp
qed

section \<open>Properties of the vignette\<close>

lemma sqrt_sum_squares: "sqrt (w * w + h * h) = sqrt (w\<^sup>2 + h\<^sup>2)"
  by (simp add: power2_eq_square)

text \<open>
  C7, as the code has it. With an amount that is not positive the vignette stage leaves
  the canvas as it is. With a positive amount it fills the canvas with a black radial
  gradient centred on the image, from the circle of radius \<open>H / 4\<close> to the circle of
  radius half the diagonal: transparent at offset 0, that is at radius \<open>H / 4\<close>;
  opacity \<open>0.2 * strength\<close> at offset 0.5, that is at the radius halfway between
  \<open>H / 4\<close> and half the diagonal; opacity \<open>0.7 * strength\<close> at offset 1, the outer
  radius.
\<close>

theorem vignette_gradient_stops:
  "(amount \<le> 0 \<longrightarrow> vignetteStage fillRect w h amount canvas = canvas)
   \<and> (0 < amount \<longrightarrow>
        vignetteStage fillRect w h amount canvas
          = fillRect (vignetteGradient (real w) (real h) amount) w h canvas)
   \<and> gradX0 (vignetteGradient W H amount) = W / 2
   \<and> gradY0 (vignetteGradient W H amount) = H / 2
   \<and> gradX1 (vignetteGradient W H amount) = W / 2
   \<and> gradY1 (vignetteGradient W H amount) = H / 2
   \<and> gradR0 (vignetteGradient W H amount) = H / 4
   \<and> gradR1 (vignetteGradient W H amount) = sqrt (W\<^sup>2 + H\<^sup>2) / 2
   \<and> colorStops (vignetteGradient W H amount)
       = [(0, (0, 0, 0, 0)),
          (1 / 2, (0, 0, 0, 2 / 10 * (amount / 100))),
          (1, (0, 0, 0, 7 / 10 * (amount / 100)))]
   \<and> stopRadius (vignetteGradient W H amount) 0 = H / 4
   \<and> stopRadius (vignetteGradient W H amount) (1 / 2) = (H / 4 + sqrt (W\<^sup>2 + H\<^sup>2) / 2) / 2
   \<and> stopRadius (vignetteGradient W H amount) 1 = sqrt (W\<^sup>2 + H\<^sup>2) / 2"
  by (simp add: vignetteStage_def vignetteGradient_def stopRadius_def Let_def
      sqrt_sum_squares field_simps)

theorem vignette_gradient_stops_witness:
  "vignetteStage keepCanvas 2 1 0 sampleImage = sampleImage
   \<and> (0::real) < 100
   \<and> gradR0 (vignetteGradient 400 300 100) = 75
   \<and> gradR1 (vignetteGradient 400 300 100) = 250
   \<and> stopRadius (vignetteGradient 400 300 100) (1 / 2) = 325 / 2
   \<and> colorStops (vignetteGradient 400 300 100)
       = [(0, (0, 0, 0, 0)), (1 / 2, (0, 0, 0, 2 / 10)), (1, (0, 0, 0, 7 / 10))]"
proof -
  have r: "sqrt ((400::real)\<^sup>2 + 300\<^sup>2) = 500"
    by (simp add: real_sqrt_unique)
  show ?thesis
    using vignette_gradient_stops [of 0 keepCanvas 2 1 sampleImage 400 300]
      vignette_gradient_stops [of 100 keepCanvas 2 1 sampleImage 400 300]
    by (simp add: r)
qed

text \<open>
  The claim of C7 as it was stated fails on a portrait image of 300 by 400: the
  gradient is transparent up to the radius 100, which is \<open>H / 4\<close>, and not up to 75,
  which is \<open>min W H / 4\<close>; and the stop of opacity \<open>0.2 * strength\<close> lies at the
  radius 175, not at half of the outer radius 250.
\<close>

theorem vignette_inner_radius_counterexample:
  "gradR0 (vignetteGradient 300 400 100) = 100
   \<and> gradR0 (vignetteGradient 300 400 100) \<noteq> min 300 400 / 4
   \<and> gradR1 (vignetteGradient 300 400 100) = 250
   \<and> stopRadius (vignetteGradient 300 400 100) (1 / 2) = 175
   \<and> stopRadius (vignetteGradient 300 400 100) (1 / 2)
       \<noteq> 1 / 2 * gradR1 (vignetteGradient 300 400 100)"
  by (simp add: vignetteGradient_def stopRadius_def real_sqrt_unique)


section \<open>The committed pass and the preview pass\<close>






end
